theory Spec2Isabelle
  imports Main "HOL-Library.Word"
begin

unbundle bit_operations_syntax

section \<open>Streams, errors and the Go library calls the decoders use\<close>

text \<open>
  A byte is a \<^typ>\<open>char\<close> (eight bits), so a Go \<^verbatim>\<open>string\<close> and a
  \<^verbatim>\<open>[]byte\<close> are both a \<^typ>\<open>char list\<close>.
\<close>

type_synonym byte = char
type_synonym u32 = "32 word"
type_synonym u64 = "64 word"

text \<open>
  The errors a decode call can return: \<^verbatim>\<open>io.EOF\<close>, \<^verbatim>\<open>io.ErrUnexpectedEOF\<close>,
  the error of a refused seek, \<^verbatim>\<open>errors.New("invalid version")\<close>,
  \<^verbatim>\<open>fmt.Errorf("invalid type: %d", vtype)\<close> and
  \<^verbatim>\<open>fmt.Errorf("invalid array type: %d", atype)\<close>.
\<close>

datatype error =
    EOF
  | ErrUnexpectedEOF
  | ErrSeek
  | ErrInvalidVersion
  | ErrInvalidType u32
  | ErrInvalidArrayType u32

text \<open>Run-time panics: they unwind the call, so nothing is returned.\<close>

datatype panic = TruncationOutOfRange | DivideByZero

text \<open>
  Modelled from the spec: the seekable-stream wrapper \<^verbatim>\<open>readSeekOffset\<close> is declared
  outside the files at hand. The spec describes it as a seekable byte source exposing its
  current absolute offset, sequential reads of N bytes, and absolute and relative seeks.
  The byte source is \<open>data\<close>; \<open>offset\<close> is the position (an \<^verbatim>\<open>int64\<close> that a stream
  never lets go negative).
\<close>

record readSeekOffset =
  data :: "byte list"
  offset :: nat

datatype whence = SeekStart | SeekCurrent

text \<open>
  Modelled from the spec: an absolute or relative seek. A position that is negative or
  that an \<^verbatim>\<open>int64\<close> cannot hold is refused and leaves the stream where it was; a position
  past the end of the data is accepted, as files and in-memory readers do.
\<close>

definition Seek :: "readSeekOffset \<Rightarrow> int \<Rightarrow> whence \<Rightarrow> (error + int) \<times> readSeekOffset" where
  "Seek rso off w =
     (let target = (case w of SeekStart \<Rightarrow> off | SeekCurrent \<Rightarrow> int (offset rso) + off)
      in if target < 0 \<or> 2 ^ 63 \<le> target then (Inl ErrSeek, rso)
         else (Inr target, rso\<lparr>offset := nat target\<rparr>))"

text \<open>The bytes from the current position to the end of the stream.\<close>

definition remaining :: "readSeekOffset \<Rightarrow> byte list" where
  "remaining rso = drop (offset rso) (data rso)"

text \<open>
  \<^verbatim>\<open>binary.Read\<close> fills a fixed-size value with \<^verbatim>\<open>io.ReadFull\<close>: either all \<open>n\<close>
  bytes are there, or the read consumes what is left and fails, with \<^verbatim>\<open>io.EOF\<close> when
  nothing was left and \<^verbatim>\<open>io.ErrUnexpectedEOF\<close> otherwise; the value is then left
  untouched.
\<close>

definition binary_Read :: "readSeekOffset \<Rightarrow> nat \<Rightarrow> (error + byte list) \<times> readSeekOffset" where
  "binary_Read rso n =
     (let avail = remaining rso
      in if n \<le> length avail then (Inr (take n avail), rso\<lparr>offset := offset rso + n\<rparr>)
         else (Inl (if avail = [] then EOF else ErrUnexpectedEOF),
               rso\<lparr>offset := offset rso + length avail\<rparr>))"

text \<open>
  \<^verbatim>\<open>io.CopyN(&b, r, n)\<close>: copies \<open>n\<close> bytes into the buffer. A stream that ends early
  gives \<^verbatim>\<open>io.EOF\<close>; a count that is not positive copies nothing and succeeds.
\<close>

definition io_CopyN :: "readSeekOffset \<Rightarrow> int \<Rightarrow> (error + byte list) \<times> readSeekOffset" where
  "io_CopyN rso n =
     (if n \<le> 0 then (Inr [], rso)
      else let avail = remaining rso
           in if nat n \<le> length avail
              then (Inr (take (nat n) avail), rso\<lparr>offset := offset rso + nat n\<rparr>)
              else (Inl EOF, rso\<lparr>offset := offset rso + length avail\<rparr>))"

text \<open>\<^verbatim>\<open>binary.ByteOrder\<close> and the unsigned value of a byte sequence in either order.\<close>

datatype ByteOrder = LittleEndian | BigEndian

fun le_uint :: "byte list \<Rightarrow> 'a::len word" where
  "le_uint [] = 0"
| "le_uint (b # bs) = of_char b OR push_bit 8 (le_uint bs)"

fun be_uint :: "'a::len word \<Rightarrow> byte list \<Rightarrow> 'a::len word" where
  "be_uint acc [] = acc"
| "be_uint acc (b # bs) = be_uint (push_bit 8 acc OR of_char b) bs"

definition uint_of :: "ByteOrder \<Rightarrow> byte list \<Rightarrow> 'a::len word" where
  "uint_of bo bs = (case bo of LittleEndian \<Rightarrow> le_uint bs | BigEndian \<Rightarrow> be_uint 0 bs)"

section \<open>Values, tensors and the size oracle\<close>

text \<open>
  The dynamically typed metadata value (Go's \<^verbatim>\<open>any\<close>), one constructor for each type the
  decoders store. Signed integers and floats keep the bits read from the stream.
\<close>

datatype gvalue =
    U8 "8 word" | I8 "8 word"
  | U16 "16 word" | I16 "16 word"
  | U32 u32 | I32 u32
  | U64 u64 | I64 u64
  | F32 u32 | F64 u64
  | Bool bool
  | Str string
  | Arr "gvalue list"

type_synonym KV = "string \<rightharpoonup> gvalue"

record tensor =
  Name :: string
  Kind :: u32
  toffset :: u64
  Shape :: "u64 list"

text \<open>
  The methods \<^verbatim>\<open>tensor.size()\<close> and \<^verbatim>\<open>tensor.parameters()\<close> (the size oracle) are
  declared outside the files at hand; the decoders take them as the parameters \<open>tsize\<close>
  and \<open>tparameters\<close>, both returning a \<^verbatim>\<open>uint64\<close>.
\<close>

type_synonym size_oracle = "tensor \<Rightarrow> u64"

section \<open>Format B: the GGLA decoder\<close>

record containerGGLA =
  version :: u32

record modelGGLA =
  la_container :: containerGGLA
  la_kv :: KV
  la_tensors :: "tensor list"

definition newModelGGLA :: "containerGGLA \<Rightarrow> modelGGLA" where
  "newModelGGLA c = \<lparr>la_container = c, la_kv = Map.empty, la_tensors = []\<rparr>"

text \<open>\<^verbatim>\<open>binary.Read(rso, binary.LittleEndian, &x)\<close> for a \<^verbatim>\<open>uint32\<close> \<open>x\<close>.\<close>

definition read_u32le :: "readSeekOffset \<Rightarrow> (error + u32) \<times> readSeekOffset" where
  "read_u32le rso =
     (case binary_Read rso 4 of
        (Inl e, rso') \<Rightarrow> (Inl e, rso')
      | (Inr bs, rso') \<Rightarrow> (Inr (le_uint bs), rso'))"

text \<open>The loop over \<open>i < dims\<close> that fills \<^verbatim>\<open>t.Shape[i]\<close> with widened 32-bit values.\<close>

fun read_shape32 :: "nat \<Rightarrow> u64 list \<Rightarrow> readSeekOffset \<Rightarrow> (error + u64 list) \<times> readSeekOffset" where
  "read_shape32 0 shape rso = (Inr shape, rso)"
| "read_shape32 (Suc n) shape rso =
     (case read_u32le rso of
        (Inl e, rso') \<Rightarrow> (Inl e, rso')
      | (Inr shape32, rso') \<Rightarrow> read_shape32 n (shape @ [ucast shape32]) rso')"

text \<open>
  One round of the tensor loop of \<^verbatim>\<open>modelGGLA.decode\<close>: the descriptor it appends, or the
  error it returns.
\<close>

definition read_tensor :: "size_oracle \<Rightarrow> readSeekOffset \<Rightarrow> (error + tensor) \<times> readSeekOffset" where
  "read_tensor tsize rso =
     (case read_u32le rso of
        (Inl e, rso1) \<Rightarrow> (Inl e, rso1)
      | (Inr dims, rso1) \<Rightarrow>
     (case read_u32le rso1 of
        (Inl e, rso2) \<Rightarrow> (Inl e, rso2)
      | (Inr namesize, rso2) \<Rightarrow>
     (case read_u32le rso2 of
        (Inl e, rso3) \<Rightarrow> (Inl e, rso3)
      | (Inr kind, rso3) \<Rightarrow>
     (case read_shape32 (unat dims) [] rso3 of
        (Inl e, rso4) \<Rightarrow> (Inl e, rso4)
      | (Inr shape, rso4) \<Rightarrow>
     (case binary_Read rso4 (unat namesize) of
        (Inl e, rso5) \<Rightarrow> (Inl e, rso5)
      | (Inr name, rso5) \<Rightarrow>
     (case Seek rso5 (sint ((word_of_nat (offset rso5) + 31 :: u64) AND - 32)) SeekStart of
        (Inl e, rso6) \<Rightarrow> (Inl e, rso6)
      | (Inr _, rso6) \<Rightarrow>
         (let t = \<lparr>Name = name, Kind = kind, toffset = word_of_nat (offset rso6),
                   Shape = rev shape\<rparr>
          in case Seek rso6 (sint (tsize t)) SeekCurrent of
               (Inl e, rso7) \<Rightarrow> (Inl e, rso7)
             | (Inr _, rso7) \<Rightarrow> (Inr t, rso7))))))))"

text \<open>
  The endless \<^verbatim>\<open>for\<close> loop: it only leaves through a \<^verbatim>\<open>return err\<close>. A run that never
  leaves has the value \<open>None\<close>.
\<close>

partial_function (option) tensor_loop ::
  "size_oracle \<Rightarrow> modelGGLA \<Rightarrow> readSeekOffset \<Rightarrow> (modelGGLA \<times> error \<times> readSeekOffset) option" where
  "tensor_loop tsize m rso =
     (case read_tensor tsize rso of
        (Inl e, rso') \<Rightarrow> Some (m, e, rso')
      | (Inr t, rso') \<Rightarrow> tensor_loop tsize (m\<lparr>la_tensors := la_tensors m @ [t]\<rparr>) rso')"

text \<open>\<^verbatim>\<open>modelGGLA.decode\<close>: the two hyperparameters, then the tensor loop.\<close>

definition ggla_decode ::
  "size_oracle \<Rightarrow> modelGGLA \<Rightarrow> readSeekOffset \<Rightarrow> (modelGGLA \<times> error \<times> readSeekOffset) option" where
  "ggla_decode tsize m rso =
     (case read_u32le rso of
        (Inl e, rso1) \<Rightarrow> Some (m, e, rso1)
      | (Inr r, rso1) \<Rightarrow>
         (let m1 = m\<lparr>la_kv := (la_kv m)(''r'' \<mapsto> U32 r)\<rparr>
          in case read_u32le rso1 of
               (Inl e, rso2) \<Rightarrow> Some (m1, e, rso2)
             | (Inr alpha, rso2) \<Rightarrow>
                 tensor_loop tsize (m1\<lparr>la_kv := (la_kv m1)(''alpha'' \<mapsto> U32 alpha)\<rparr>) rso2))"

text \<open>
  \<^verbatim>\<open>containerGGLA.Decode\<close>. The error of the version read is dropped, so a failed read
  leaves the container's version as it was. The result is the pair the Go function
  returns (the model is \<open>None\<close> for \<^verbatim>\<open>nil\<close>) and the stream afterwards.
\<close>

definition ggla_Decode ::
  "size_oracle \<Rightarrow> containerGGLA \<Rightarrow> readSeekOffset
     \<Rightarrow> (modelGGLA option \<times> error option \<times> readSeekOffset) option" where
  "ggla_Decode tsize c rso =
     (let (r, rso1) = read_u32le rso;
          c1 = (case r of Inl _ \<Rightarrow> c | Inr v \<Rightarrow> c\<lparr>version := v\<rparr>)
      in if version c1 = 1
         then (case ggla_decode tsize (newModelGGLA c1) rso1 of
                 None \<Rightarrow> None
               | Some (m, e, rso2) \<Rightarrow> Some (Some m, Some e, rso2))
         else Some (None, Some ErrInvalidVersion, rso1))"

section \<open>Format A: the GGUF decoder\<close>

record containerGGUF =
  bo :: ByteOrder
  Version :: u32
  V1_NumTensor :: u32
  V1_NumKV :: u32
  V2_NumTensor :: u64
  V2_NumKV :: u64

abbreviation (input) ggufTypeUint8 :: u32 where "ggufTypeUint8 \<equiv> 0"
abbreviation (input) ggufTypeInt8 :: u32 where "ggufTypeInt8 \<equiv> 1"
abbreviation (input) ggufTypeUint16 :: u32 where "ggufTypeUint16 \<equiv> 2"
abbreviation (input) ggufTypeInt16 :: u32 where "ggufTypeInt16 \<equiv> 3"
abbreviation (input) ggufTypeUint32 :: u32 where "ggufTypeUint32 \<equiv> 4"
abbreviation (input) ggufTypeInt32 :: u32 where "ggufTypeInt32 \<equiv> 5"
abbreviation (input) ggufTypeFloat32 :: u32 where "ggufTypeFloat32 \<equiv> 6"
abbreviation (input) ggufTypeBool :: u32 where "ggufTypeBool \<equiv> 7"
abbreviation (input) ggufTypeString :: u32 where "ggufTypeString \<equiv> 8"
abbreviation (input) ggufTypeArray :: u32 where "ggufTypeArray \<equiv> 9"
abbreviation (input) ggufTypeUint64 :: u32 where "ggufTypeUint64 \<equiv> 10"
abbreviation (input) ggufTypeInt64 :: u32 where "ggufTypeInt64 \<equiv> 11"
abbreviation (input) ggufTypeFloat64 :: u32 where "ggufTypeFloat64 \<equiv> 12"

record modelGGUF =
  container :: containerGGUF
  kv :: KV
  tensors :: "tensor list"
  parameters :: u64

definition newModelGGUF :: "containerGGUF \<Rightarrow> modelGGUF" where
  "newModelGGUF c = \<lparr>container = c, kv = Map.empty, tensors = [], parameters = 0\<rparr>"

definition NumTensor :: "modelGGUF \<Rightarrow> u64" where
  "NumTensor llm =
     (if Version (container llm) = 1 then ucast (V1_NumTensor (container llm))
      else V2_NumTensor (container llm))"

definition NumKV :: "modelGGUF \<Rightarrow> u64" where
  "NumKV llm =
     (if Version (container llm) = 1 then ucast (V1_NumKV (container llm))
      else V2_NumKV (container llm))"

subsection \<open>Fixed-width readers\<close>

text \<open>
  Each reader declares a zero value, calls \<^verbatim>\<open>binary.Read\<close> and drops its error: a
  failed read returns the zero value.
\<close>

definition read_uint :: "modelGGUF \<Rightarrow> readSeekOffset \<Rightarrow> nat \<Rightarrow> 'a::len word \<times> readSeekOffset" where
  "read_uint llm r n =
     (case binary_Read r n of
        (Inl e, r') \<Rightarrow> (0, r')
      | (Inr bs, r') \<Rightarrow> (uint_of (bo (container llm)) bs, r'))"

definition readU8 :: "modelGGUF \<Rightarrow> readSeekOffset \<Rightarrow> 8 word \<times> readSeekOffset" where
  "readU8 llm r = read_uint llm r 1"

definition readI8 :: "modelGGUF \<Rightarrow> readSeekOffset \<Rightarrow> 8 word \<times> readSeekOffset" where
  "readI8 llm r = read_uint llm r 1"

definition readU16 :: "modelGGUF \<Rightarrow> readSeekOffset \<Rightarrow> 16 word \<times> readSeekOffset" where
  "readU16 llm r = read_uint llm r 2"

definition readI16 :: "modelGGUF \<Rightarrow> readSeekOffset \<Rightarrow> 16 word \<times> readSeekOffset" where
  "readI16 llm r = read_uint llm r 2"

definition readU32 :: "modelGGUF \<Rightarrow> readSeekOffset \<Rightarrow> u32 \<times> readSeekOffset" where
  "readU32 llm r = read_uint llm r 4"

definition readI32 :: "modelGGUF \<Rightarrow> readSeekOffset \<Rightarrow> u32 \<times> readSeekOffset" where
  "readI32 llm r = read_uint llm r 4"

definition readU64 :: "modelGGUF \<Rightarrow> readSeekOffset \<Rightarrow> u64 \<times> readSeekOffset" where
  "readU64 llm r = read_uint llm r 8"

definition readI64 :: "modelGGUF \<Rightarrow> readSeekOffset \<Rightarrow> u64 \<times> readSeekOffset" where
  "readI64 llm r = read_uint llm r 8"

definition readF32 :: "modelGGUF \<Rightarrow> readSeekOffset \<Rightarrow> u32 \<times> readSeekOffset" where
  "readF32 llm r = read_uint llm r 4"

definition readF64 :: "modelGGUF \<Rightarrow> readSeekOffset \<Rightarrow> u64 \<times> readSeekOffset" where
  "readF64 llm r = read_uint llm r 8"

definition readBool :: "modelGGUF \<Rightarrow> readSeekOffset \<Rightarrow> bool \<times> readSeekOffset" where
  "readBool llm r =
     (case binary_Read r 1 of
        (Inl e, r') \<Rightarrow> (False, r')
      | (Inr bs, r') \<Rightarrow> (bs \<noteq> [CHR 0x00], r'))"

subsection \<open>Strings and arrays\<close>

text \<open>What a reader that can fail gives back: a panic, a returned error, or a value.\<close>

datatype 'a result = Panic panic | Err error readSeekOffset | Ok 'a readSeekOffset

text \<open>
  \<^verbatim>\<open>readStringV1\<close>: a 32-bit length, the bytes, and \<^verbatim>\<open>b.Truncate(b.Len() - 1)\<close>, which
  panics when the buffer is empty.
\<close>

definition readStringV1 :: "modelGGUF \<Rightarrow> readSeekOffset \<Rightarrow> string result" where
  "readStringV1 llm r =
     (let (nameLength, r1) = readU32 llm r
      in case io_CopyN r1 (uint nameLength) of
           (Inl e, r2) \<Rightarrow> Err e r2
         | (Inr b, r2) \<Rightarrow>
             if int (length b) - 1 < 0 then Panic TruncationOutOfRange
             else Ok (take (length b - 1) b) r2)"

definition readString :: "modelGGUF \<Rightarrow> readSeekOffset \<Rightarrow> string result" where
  "readString llm r =
     (if Version (container llm) = 1 then readStringV1 llm r
      else let (nameLength, r1) = readU64 llm r
           in case io_CopyN r1 (sint nameLength) of
                (Inl e, r2) \<Rightarrow> Err e r2
              | (Inr b, r2) \<Rightarrow> Ok b r2)"

text \<open>The \<^verbatim>\<open>switch atype\<close> inside the loop of \<^verbatim>\<open>readArrayV1\<close>: one element.\<close>

definition readArrayV1_elem :: "modelGGUF \<Rightarrow> u32 \<Rightarrow> readSeekOffset \<Rightarrow> gvalue result" where
  "readArrayV1_elem llm atype r =
     (if atype = ggufTypeUint8 then (let (v, r') = readU8 llm r in Ok (U8 v) r')
      else if atype = ggufTypeInt8 then (let (v, r') = readI8 llm r in Ok (I8 v) r')
      else if atype = ggufTypeUint16 then (let (v, r') = readU16 llm r in Ok (U16 v) r')
      else if atype = ggufTypeInt16 then (let (v, r') = readI16 llm r in Ok (I16 v) r')
      else if atype = ggufTypeUint32 then (let (v, r') = readU32 llm r in Ok (U32 v) r')
      else if atype = ggufTypeInt32 then (let (v, r') = readI32 llm r in Ok (I32 v) r')
      else if atype = ggufTypeFloat32 then (let (v, r') = readF32 llm r in Ok (F32 v) r')
      else if atype = ggufTypeBool then (let (v, r') = readBool llm r in Ok (Bool v) r')
      else if atype = ggufTypeString then
        (case readStringV1 llm r of
           Panic p \<Rightarrow> Panic p
         | Err e r' \<Rightarrow> Err e r'
         | Ok s r' \<Rightarrow> Ok (Str s) r')
      else Err (ErrInvalidArrayType atype) r)"

fun readArrayV1_loop ::
  "modelGGUF \<Rightarrow> u32 \<Rightarrow> nat \<Rightarrow> gvalue list \<Rightarrow> readSeekOffset \<Rightarrow> gvalue list result" where
  "readArrayV1_loop llm atype 0 arr r = Ok arr r"
| "readArrayV1_loop llm atype (Suc n) arr r =
     (case readArrayV1_elem llm atype r of
        Panic p \<Rightarrow> Panic p
      | Err e r' \<Rightarrow> Err e r'
      | Ok v r' \<Rightarrow> readArrayV1_loop llm atype n (arr @ [v]) r')"

definition readArrayV1 :: "modelGGUF \<Rightarrow> readSeekOffset \<Rightarrow> gvalue list result" where
  "readArrayV1 llm r =
     (let (atype, r1) = readU32 llm r;
          (n, r2) = readU32 llm r1
      in readArrayV1_loop llm atype (unat n) [] r2)"

text \<open>The \<^verbatim>\<open>switch atype\<close> inside the loop of \<^verbatim>\<open>readArray\<close>.\<close>

definition readArray_elem :: "modelGGUF \<Rightarrow> u32 \<Rightarrow> readSeekOffset \<Rightarrow> gvalue result" where
  "readArray_elem llm atype r =
     (if atype = ggufTypeUint8 then (let (v, r') = readU8 llm r in Ok (U8 v) r')
      else if atype = ggufTypeInt8 then (let (v, r') = readI8 llm r in Ok (I8 v) r')
      else if atype = ggufTypeUint16 then (let (v, r') = readU16 llm r in Ok (U16 v) r')
      else if atype = ggufTypeInt16 then (let (v, r') = readI16 llm r in Ok (I16 v) r')
      else if atype = ggufTypeUint32 then (let (v, r') = readU32 llm r in Ok (U32 v) r')
      else if atype = ggufTypeInt32 then (let (v, r') = readI32 llm r in Ok (I32 v) r')
      else if atype = ggufTypeUint64 then (let (v, r') = readU64 llm r in Ok (U64 v) r')
      else if atype = ggufTypeInt64 then (let (v, r') = readI64 llm r in Ok (I64 v) r')
      else if atype = ggufTypeFloat32 then (let (v, r') = readF32 llm r in Ok (F32 v) r')
      else if atype = ggufTypeFloat64 then (let (v, r') = readF64 llm r in Ok (F64 v) r')
      else if atype = ggufTypeBool then (let (v, r') = readBool llm r in Ok (Bool v) r')
      else if atype = ggufTypeString then
        (case readString llm r of
           Panic p \<Rightarrow> Panic p
         | Err e r' \<Rightarrow> Err e r'
         | Ok s r' \<Rightarrow> Ok (Str s) r')
      else Err (ErrInvalidArrayType atype) r)"

fun readArray_loop ::
  "modelGGUF \<Rightarrow> u32 \<Rightarrow> nat \<Rightarrow> gvalue list \<Rightarrow> readSeekOffset \<Rightarrow> gvalue list result" where
  "readArray_loop llm atype 0 arr r = Ok arr r"
| "readArray_loop llm atype (Suc n) arr r =
     (case readArray_elem llm atype r of
        Panic p \<Rightarrow> Panic p
      | Err e r' \<Rightarrow> Err e r'
      | Ok v r' \<Rightarrow> readArray_loop llm atype n (arr @ [v]) r')"

definition readArray :: "modelGGUF \<Rightarrow> readSeekOffset \<Rightarrow> gvalue list result" where
  "readArray llm r =
     (if Version (container llm) = 1 then readArrayV1 llm r
      else let (atype, r1) = readU32 llm r;
               (n, r2) = readU64 llm r1
           in readArray_loop llm atype (unat n) [] r2)"

subsection \<open>The decode loops\<close>

text \<open>The \<^verbatim>\<open>switch vtype\<close> of \<^verbatim>\<open>decode\<close>, in the order of the source.\<close>

definition read_value :: "modelGGUF \<Rightarrow> u32 \<Rightarrow> readSeekOffset \<Rightarrow> gvalue result" where
  "read_value llm vtype r =
     (if vtype = ggufTypeUint8 then (let (v, r') = readU8 llm r in Ok (U8 v) r')
      else if vtype = ggufTypeInt8 then (let (v, r') = readI8 llm r in Ok (I8 v) r')
      else if vtype = ggufTypeUint16 then (let (v, r') = readU16 llm r in Ok (U16 v) r')
      else if vtype = ggufTypeInt16 then (let (v, r') = readI16 llm r in Ok (I16 v) r')
      else if vtype = ggufTypeUint32 then (let (v, r') = readU32 llm r in Ok (U32 v) r')
      else if vtype = ggufTypeInt32 then (let (v, r') = readI32 llm r in Ok (I32 v) r')
      else if vtype = ggufTypeUint64 then (let (v, r') = readU64 llm r in Ok (U64 v) r')
      else if vtype = ggufTypeInt64 then (let (v, r') = readI64 llm r in Ok (I64 v) r')
      else if vtype = ggufTypeFloat32 then (let (v, r') = readF32 llm r in Ok (F32 v) r')
      else if vtype = ggufTypeFloat64 then (let (v, r') = readF64 llm r in Ok (F64 v) r')
      else if vtype = ggufTypeBool then (let (v, r') = readBool llm r in Ok (Bool v) r')
      else if vtype = ggufTypeString then
        (case readString llm r of
           Panic p \<Rightarrow> Panic p
         | Err e r' \<Rightarrow> Err e r'
         | Ok s r' \<Rightarrow> Ok (Str s) r')
      else if vtype = ggufTypeArray then
        (case readArray llm r of
           Panic p \<Rightarrow> Panic p
         | Err e r' \<Rightarrow> Err e r'
         | Ok a r' \<Rightarrow> Ok (Arr a) r')
      else Err (ErrInvalidType vtype) r)"

text \<open>The reads of one round of the key/value loop: key, type tag and value.\<close>

definition read_kv :: "modelGGUF \<Rightarrow> readSeekOffset \<Rightarrow> (string \<times> u32 \<times> gvalue) result" where
  "read_kv llm rso =
     (case readString llm rso of
        Panic p \<Rightarrow> Panic p
      | Err e r1 \<Rightarrow> Err e r1
      | Ok k r1 \<Rightarrow>
          (let (vtype, r2) = readU32 llm r1
           in case read_value llm vtype r2 of
                Panic p \<Rightarrow> Panic p
              | Err e r3 \<Rightarrow> Err e r3
              | Ok v r3 \<Rightarrow> Ok (k, vtype, v) r3))"

text \<open>
  How a loop or a decode call ends: with a panic, or by returning; the model is the
  receiver as the call left it, the error is \<open>None\<close> for \<^verbatim>\<open>nil\<close>.
\<close>

datatype outcome =
    Panicked panic
  | Returned (model_of: modelGGUF) (error_of: "error option") (stream_of: readSeekOffset)

fun decode_kvs :: "nat \<Rightarrow> modelGGUF \<Rightarrow> readSeekOffset \<Rightarrow> outcome" where
  "decode_kvs 0 llm rso = Returned llm None rso"
| "decode_kvs (Suc n) llm rso =
     (case read_kv llm rso of
        Panic p \<Rightarrow> Panicked p
      | Err e r \<Rightarrow> Returned llm (Some e) r
      | Ok (k, vtype, v) r \<Rightarrow>
          decode_kvs n
            (if vtype \<noteq> ggufTypeArray \<and> k \<noteq> ''tokenizer.chat_template''
             then llm\<lparr>kv := (kv llm)(k \<mapsto> v)\<rparr> else llm) r)"

text \<open>The loop over \<open>i < dims\<close> that fills \<^verbatim>\<open>shape[i]\<close> with 64-bit values.\<close>

fun read_shape64 ::
  "modelGGUF \<Rightarrow> nat \<Rightarrow> u64 list \<Rightarrow> readSeekOffset \<Rightarrow> u64 list \<times> readSeekOffset" where
  "read_shape64 llm 0 shape r = (shape, r)"
| "read_shape64 llm (Suc n) shape r =
     (let (v, r') = readU64 llm r in read_shape64 llm n (shape @ [v]) r')"

text \<open>The reads of one round of the tensor loop: the descriptor it appends.\<close>

definition read_tensor_info :: "modelGGUF \<Rightarrow> readSeekOffset \<Rightarrow> tensor result" where
  "read_tensor_info llm rso =
     (case readString llm rso of
        Panic p \<Rightarrow> Panic p
      | Err e r1 \<Rightarrow> Err e r1
      | Ok name r1 \<Rightarrow>
          (let (dims, r2) = readU32 llm r1;
               (shape, r3) = read_shape64 llm (unat dims) [] r2;
               (kind, r4) = readU32 llm r3;
               (off, r5) = readU64 llm r4
           in Ok \<lparr>Name = name, Kind = kind, toffset = off, Shape = shape\<rparr> r5))"

fun decode_tensors :: "size_oracle \<Rightarrow> nat \<Rightarrow> modelGGUF \<Rightarrow> readSeekOffset \<Rightarrow> outcome" where
  "decode_tensors tparameters 0 llm rso = Returned llm None rso"
| "decode_tensors tparameters (Suc n) llm rso =
     (case read_tensor_info llm rso of
        Panic p \<Rightarrow> Panicked p
      | Err e r \<Rightarrow> Returned llm (Some e) r
      | Ok t r \<Rightarrow>
          decode_tensors tparameters n
            (llm\<lparr>tensors := tensors llm @ [t],
                 parameters := parameters llm + tparameters t\<rparr>) r)"

text \<open>
  The type assertion \<^verbatim>\<open>llm.kv["general.alignment"].(uint32)\<close> with its default.
\<close>

definition alignment_of :: "KV \<Rightarrow> u32" where
  "alignment_of m = (case m ''general.alignment'' of Some (U32 a) \<Rightarrow> a | _ \<Rightarrow> 32)"

text \<open>
  \<^verbatim>\<open>(int64(tensor.size()) + int64(alignment) - 1) & ^(int64(alignment) - 1)\<close>, computed
  on 64 bits and read as a signed value.
\<close>

definition padded :: "u64 \<Rightarrow> u32 \<Rightarrow> int" where
  "padded sz alignment = sint ((sz + ucast alignment - 1) AND NOT (ucast alignment - 1))"

text \<open>The \<^verbatim>\<open>range llm.tensors\<close> loop; the result of each seek is dropped.\<close>

fun skip_tensors :: "size_oracle \<Rightarrow> u32 \<Rightarrow> tensor list \<Rightarrow> readSeekOffset \<Rightarrow> readSeekOffset" where
  "skip_tensors tsize alignment [] rso = rso"
| "skip_tensors tsize alignment (t # ts) rso =
     skip_tensors tsize alignment ts (snd (Seek rso (padded (tsize t) alignment) SeekCurrent))"

text \<open>
  The end of \<^verbatim>\<open>decode\<close>, after both loops: the parameter count, the alignment, the
  seek to the data section and the seeks over the tensors. The remainder by a zero
  alignment is a division by zero, which panics.
\<close>

definition decode_finish :: "size_oracle \<Rightarrow> modelGGUF \<Rightarrow> readSeekOffset \<Rightarrow> outcome" where
  "decode_finish tsize llm rso =
     (let llm' = llm\<lparr>kv := (kv llm)(''general.parameter_count'' \<mapsto> U64 (parameters llm))\<rparr>;
          alignment = alignment_of (kv llm')
      in if alignment = 0 then Panicked DivideByZero
         else let rso' = snd (Seek rso (uint alignment - int (offset rso) mod uint alignment)
                                SeekCurrent)
              in Returned llm' None (skip_tensors tsize alignment (tensors llm') rso'))"

text \<open>The two loops of \<^verbatim>\<open>decode\<close>: key/value entries, then tensor descriptors.\<close>

definition decode_entries :: "size_oracle \<Rightarrow> modelGGUF \<Rightarrow> readSeekOffset \<Rightarrow> outcome" where
  "decode_entries tparameters llm rso =
     (case decode_kvs (unat (NumKV llm)) llm rso of
        Panicked p \<Rightarrow> Panicked p
      | Returned llm1 (Some e) r1 \<Rightarrow> Returned llm1 (Some e) r1
      | Returned llm1 None r1 \<Rightarrow> decode_tensors tparameters (unat (NumTensor llm1)) llm1 r1)"

text \<open>\<^verbatim>\<open>modelGGUF.decode\<close>.\<close>

definition gguf_decode ::
  "size_oracle \<Rightarrow> size_oracle \<Rightarrow> modelGGUF \<Rightarrow> readSeekOffset \<Rightarrow> outcome" where
  "gguf_decode tsize tparameters llm rso =
     (case decode_entries tparameters llm rso of
        Panicked p \<Rightarrow> Panicked p
      | Returned llm2 (Some e) r2 \<Rightarrow> Returned llm2 (Some e) r2
      | Returned llm2 None r2 \<Rightarrow> decode_finish tsize llm2 r2)"

text \<open>
  \<^verbatim>\<open>containerGGUF.Decode\<close>: the version, then the pair of counts in the width the version
  selects, each read with its error dropped; it returns the model together with the
  error of \<^verbatim>\<open>decode\<close>.
\<close>

definition read_header :: "containerGGUF \<Rightarrow> readSeekOffset \<Rightarrow> containerGGUF \<times> readSeekOffset" where
  "read_header c rso =
     (let (v, rso1) = binary_Read rso 4;
          c1 = (case v of Inl e \<Rightarrow> c | Inr bs \<Rightarrow> c\<lparr>Version := uint_of (bo c) bs\<rparr>)
      in if Version c1 = 1
         then (case binary_Read rso1 8 of
                 (Inl e, rso2) \<Rightarrow> (c1, rso2)
               | (Inr bs, rso2) \<Rightarrow>
                   (c1\<lparr>V1_NumTensor := uint_of (bo c1) (take 4 bs),
                       V1_NumKV := uint_of (bo c1) (drop 4 bs)\<rparr>, rso2))
         else (case binary_Read rso1 16 of
                 (Inl e, rso2) \<Rightarrow> (c1, rso2)
               | (Inr bs, rso2) \<Rightarrow>
                   (c1\<lparr>V2_NumTensor := uint_of (bo c1) (take 8 bs),
                       V2_NumKV := uint_of (bo c1) (drop 8 bs)\<rparr>, rso2)))"

definition gguf_Decode ::
  "size_oracle \<Rightarrow> size_oracle \<Rightarrow> containerGGUF \<Rightarrow> readSeekOffset \<Rightarrow> outcome" where
  "gguf_Decode tsize tparameters c rso =
     (let (c', rso') = read_header c rso
      in gguf_decode tsize tparameters (newModelGGUF c') rso')"

section \<open>The wire, as the claims describe it\<close>

text \<open>
  The \<open>i\<close>-th little-endian 32-bit value of a byte sequence, and the dimension values of
  the GGLA tensor entry that starts at the stream's position: the entry opens with the
  dimension count, the name length and the kind, and the dimensions follow.
\<close>

definition wire_u32 :: "byte list \<Rightarrow> nat \<Rightarrow> u32" where
  "wire_u32 bs i = le_uint (take 4 (drop (4 * i) bs))"

definition wire_dims :: "readSeekOffset \<Rightarrow> u32 list" where
  "wire_dims rso =
     (let bs = remaining rso
      in map (\<lambda>i. wire_u32 bs (3 + i)) [0..<unat (wire_u32 bs 0)])"

text \<open>The smallest multiple of \<open>a\<close> that is not less than \<open>x\<close> (for \<open>a > 0\<close>).\<close>

definition round_up :: "nat \<Rightarrow> nat \<Rightarrow> nat" where
  "round_up a x = ((x + a - 1) div a) * a"

text \<open>
  A run of the GGLA tensor loop from a stream position, told round by round: the
  descriptors of the rounds that succeed, in order, then the error of the round that
  fails, and the stream as that round leaves it.
\<close>

inductive accumulates ::
  "size_oracle \<Rightarrow> readSeekOffset \<Rightarrow> tensor list \<Rightarrow> error \<Rightarrow> readSeekOffset \<Rightarrow> bool"
  for tsize :: size_oracle where
    stop: "read_tensor tsize rso = (Inl e, rso') \<Longrightarrow> accumulates tsize rso [] e rso'"
  | step: "read_tensor tsize rso = (Inr t, rso1) \<Longrightarrow> accumulates tsize rso1 ts e rso' \<Longrightarrow>
           accumulates tsize rso (t # ts) e rso'"

code_pred accumulates .

text \<open>
  The stream states at which the tensor loop starts a round, when it is entered at
  \<open>rso0\<close>: the entry state, and the state every completed round leaves.
\<close>

inductive visits :: "size_oracle \<Rightarrow> readSeekOffset \<Rightarrow> readSeekOffset \<Rightarrow> bool"
  for tsize :: size_oracle and rso0 :: readSeekOffset where
    entered: "visits tsize rso0 rso0"
  | completed: "visits tsize rso0 rso \<Longrightarrow> read_tensor tsize rso = (Inr t, rso') \<Longrightarrow>
           visits tsize rso0 rso'"

code_pred visits .

text \<open>The two errors a failed read gives.\<close>

definition read_error :: "error \<Rightarrow> bool" where
  "read_error e \<longleftrightarrow> e = EOF \<or> e = ErrUnexpectedEOF"

section \<open>Example inputs\<close>

text \<open>
  Modelled from the spec: the methods \<^verbatim>\<open>tensor.parameters()\<close> and \<^verbatim>\<open>tensor.size()\<close>
  are declared outside the files at hand. The spec gives the element count as the product
  of the shape dimensions, and the byte size of an unquantized kind as the element count
  times the scalar width of the kind. This instance, used in the examples, takes every
  kind as a four-byte scalar; both results are \<^verbatim>\<open>uint64\<close> values.
\<close>

definition f32_parameters :: size_oracle where
  "f32_parameters t = prod_list (Shape t)"

definition f32_size :: size_oracle where
  "f32_size t = 4 * prod_list (Shape t)"

text \<open>A GGLA stream with version tag 2, followed by eight more bytes.\<close>

definition ggla_v2 :: readSeekOffset where
  "ggla_v2 = \<lparr>data = [CHR 0x02, CHR 0x00, CHR 0x00, CHR 0x00] @
                       [CHR 0x08, CHR 0x00, CHR 0x00, CHR 0x00] @
                       [CHR 0x10, CHR 0x00, CHR 0x00, CHR 0x00],
              offset = 0\<rparr>"

text \<open>A fresh GGUF container, little endian, every field zero.\<close>

definition gguf_le :: containerGGUF where
  "gguf_le = \<lparr>bo = LittleEndian, Version = 0, V1_NumTensor = 0, V1_NumKV = 0,
               V2_NumTensor = 0, V2_NumKV = 0\<rparr>"

text \<open>A version-1 model and two streams at a string: length 0, and length 3 for \<open>ab\<close> and its terminator.\<close>

definition llm_v1 :: modelGGUF where
  "llm_v1 = newModelGGUF (gguf_le\<lparr>Version := 1\<rparr>)"

definition str_v1_empty :: readSeekOffset where
  "str_v1_empty = \<lparr>data = [CHR 0x00, CHR 0x00, CHR 0x00, CHR 0x00] @ ''ab'', offset = 0\<rparr>"

definition str_v1_ab :: readSeekOffset where
  "str_v1_ab = \<lparr>data = [CHR 0x03, CHR 0x00, CHR 0x00, CHR 0x00] @ ''ab'' @ [CHR 0x00] @ ''c'',
                offset = 0\<rparr>"

text \<open>
  A GGLA stream: version 1, \<open>r = 8\<close>, \<open>alpha = 16\<close>, and one tensor entry at offset 12
  with the dimensions 2 and 3 on the wire, the name \<open>w\<close>, padding up to offset 64 and
  24 bytes of payload.
\<close>

definition ggla_one :: readSeekOffset where
  "ggla_one = \<lparr>data =
       [CHR 0x01, CHR 0x00, CHR 0x00, CHR 0x00] @
       [CHR 0x08, CHR 0x00, CHR 0x00, CHR 0x00] @
       [CHR 0x10, CHR 0x00, CHR 0x00, CHR 0x00] @
       [CHR 0x02, CHR 0x00, CHR 0x00, CHR 0x00] @
       [CHR 0x01, CHR 0x00, CHR 0x00, CHR 0x00] @
       [CHR 0x00, CHR 0x00, CHR 0x00, CHR 0x00] @
       [CHR 0x02, CHR 0x00, CHR 0x00, CHR 0x00] @
       [CHR 0x03, CHR 0x00, CHR 0x00, CHR 0x00] @ ''w'' @
       replicate 31 (CHR 0x00) @ replicate 24 (CHR 0x00),
     offset = 0\<rparr>"

text \<open>A version-3 model and a stream at a string with the 64-bit length 2.\<close>

definition llm_v3 :: modelGGUF where
  "llm_v3 = newModelGGUF (gguf_le\<lparr>Version := 3\<rparr>)"

definition str_v3_ab :: readSeekOffset where
  "str_v3_ab = \<lparr>data =
       [CHR 0x02, CHR 0x00, CHR 0x00, CHR 0x00, CHR 0x00, CHR 0x00, CHR 0x00, CHR 0x00] @
       ''ab'' @ ''c'',
     offset = 0\<rparr>"

text \<open>
  A version-3 GGUF stream that ends early: no tensors, one key/value entry, the key
  \<open>a\<close>, and then nothing: the type tag and the value are missing.
\<close>

definition gguf_truncated :: readSeekOffset where
  "gguf_truncated = \<lparr>data =
       [CHR 0x03, CHR 0x00, CHR 0x00, CHR 0x00] @
       [CHR 0x00, CHR 0x00, CHR 0x00, CHR 0x00, CHR 0x00, CHR 0x00, CHR 0x00, CHR 0x00] @
       [CHR 0x01, CHR 0x00, CHR 0x00, CHR 0x00, CHR 0x00, CHR 0x00, CHR 0x00, CHR 0x00] @
       [CHR 0x01, CHR 0x00, CHR 0x00, CHR 0x00, CHR 0x00, CHR 0x00, CHR 0x00, CHR 0x00] @
       ''a'',
     offset = 0\<rparr>"

text \<open>
  A version-3 GGUF stream with a key/value entry that sets \<open>general.parameter_count\<close> to
  the 64-bit value 999, and two tensors: \<open>a\<close> of shape \<open>[5]\<close> and \<open>b\<close> of shape
  \<open>[2, 3]\<close>.
\<close>

definition gguf_count_clash :: readSeekOffset where
  "gguf_count_clash = \<lparr>data =
       [CHR 0x03, CHR 0x00, CHR 0x00, CHR 0x00] @
       [CHR 0x02, CHR 0x00, CHR 0x00, CHR 0x00, CHR 0x00, CHR 0x00, CHR 0x00, CHR 0x00] @
       [CHR 0x01, CHR 0x00, CHR 0x00, CHR 0x00, CHR 0x00, CHR 0x00, CHR 0x00, CHR 0x00] @
       [CHR 0x17, CHR 0x00, CHR 0x00, CHR 0x00, CHR 0x00, CHR 0x00, CHR 0x00, CHR 0x00] @
       ''general.parameter_count'' @ [CHR 0x0A, CHR 0x00, CHR 0x00, CHR 0x00] @
       [CHR 0xE7, CHR 0x03, CHR 0x00, CHR 0x00, CHR 0x00, CHR 0x00, CHR 0x00, CHR 0x00] @
       [CHR 0x01, CHR 0x00, CHR 0x00, CHR 0x00, CHR 0x00, CHR 0x00, CHR 0x00, CHR 0x00] @
       ''a'' @ [CHR 0x01, CHR 0x00, CHR 0x00, CHR 0x00] @
       [CHR 0x05, CHR 0x00, CHR 0x00, CHR 0x00, CHR 0x00, CHR 0x00, CHR 0x00, CHR 0x00] @
       [CHR 0x00, CHR 0x00, CHR 0x00, CHR 0x00] @
       [CHR 0x00, CHR 0x00, CHR 0x00, CHR 0x00, CHR 0x00, CHR 0x00, CHR 0x00, CHR 0x00] @
       [CHR 0x01, CHR 0x00, CHR 0x00, CHR 0x00, CHR 0x00, CHR 0x00, CHR 0x00, CHR 0x00] @
       ''b'' @ [CHR 0x02, CHR 0x00, CHR 0x00, CHR 0x00] @
       [CHR 0x02, CHR 0x00, CHR 0x00, CHR 0x00, CHR 0x00, CHR 0x00, CHR 0x00, CHR 0x00] @
       [CHR 0x03, CHR 0x00, CHR 0x00, CHR 0x00, CHR 0x00, CHR 0x00, CHR 0x00, CHR 0x00] @
       [CHR 0x00, CHR 0x00, CHR 0x00, CHR 0x00] @
       [CHR 0x20, CHR 0x00, CHR 0x00, CHR 0x00, CHR 0x00, CHR 0x00, CHR 0x00, CHR 0x00],
     offset = 0\<rparr>"

text \<open>
  The stream \<open>ggla_one\<close> followed by the start of a second entry that breaks off inside
  its name length.
\<close>

definition ggla_cut :: readSeekOffset where
  "ggla_cut = \<lparr>data = data ggla_one @
       [CHR 0x01, CHR 0x00, CHR 0x00, CHR 0x00] @ [CHR 0x00, CHR 0x00],
     offset = 0\<rparr>"

text \<open>
  A GGLA stream of 33 bytes: version 1, \<open>r = 8\<close>, \<open>alpha = 16\<close>, and one tensor entry
  with the dimensions \<open>2 ^ 30\<close> and \<open>2 ^ 31\<close> on the wire and the name \<open>w\<close>. At four bytes
  for each of its \<open>2 ^ 61\<close> elements the tensor has \<open>2 ^ 63\<close> bytes.
\<close>

definition ggla_huge :: readSeekOffset where
  "ggla_huge = \<lparr>data =
       [CHR 0x01, CHR 0x00, CHR 0x00, CHR 0x00] @
       [CHR 0x08, CHR 0x00, CHR 0x00, CHR 0x00] @
       [CHR 0x10, CHR 0x00, CHR 0x00, CHR 0x00] @
       [CHR 0x02, CHR 0x00, CHR 0x00, CHR 0x00] @
       [CHR 0x01, CHR 0x00, CHR 0x00, CHR 0x00] @
       [CHR 0x00, CHR 0x00, CHR 0x00, CHR 0x00] @
       [CHR 0x00, CHR 0x00, CHR 0x00, CHR 0x40] @
       [CHR 0x00, CHR 0x00, CHR 0x00, CHR 0x80] @ ''w'',
     offset = 0\<rparr>"

section \<open>Facts about the library calls\<close>

lemma read_u32le_avail:
  "4 \<le> length (remaining rso) \<Longrightarrow>
   read_u32le rso = (Inr (le_uint (take 4 (remaining rso))), rso\<lparr>offset := offset rso + 4\<rparr>)"
  by (simp add: read_u32le_def binary_Read_def)

lemma io_CopyN_zero: "io_CopyN r 0 = (Inr [], r)"
  by (simp add: io_CopyN_def)

lemma io_CopyN_length:
  "io_CopyN r n = (Inr b, r') \<Longrightarrow> length b = nat n"
  by (auto simp: io_CopyN_def Let_def split: if_splits)

lemma io_CopyN_bytes:
  "io_CopyN r n = (Inr b, r') \<Longrightarrow> b = take (nat n) (remaining r)"
  by (auto simp: io_CopyN_def Let_def split: if_splits)

section \<open>Alignment arithmetic on 64-bit words\<close>

lemma and_not_mask_eq_diff:
  "(w :: 'a::len word) AND NOT (mask n) = w - take_bit n w"
proof -
  have "w AND NOT (mask n) = push_bit n (drop_bit n w)"
    by (rule bit_eqI) (auto simp: bit_simps)
  moreover have "push_bit n (drop_bit n w) + take_bit n w = w"
    by (rule bits_ident)
  ultimately show ?thesis
    by (metis add_diff_cancel_right')
qed

lemma unat_and_not_mask:
  "unat ((w :: 'a::len word) AND NOT (mask n)) = unat w - unat w mod 2 ^ n"
proof -
  have "unat (take_bit n w) = take_bit n (unat w)"
    by (rule unsigned_take_bit_eq)
  also have "\<dots> = unat w mod 2 ^ n"
    by (rule take_bit_eq_mod)
  finally have tb: "unat (take_bit n w) = unat w mod 2 ^ n" .
  have le: "take_bit n w \<le> w"
    unfolding word_le_nat_alt tb by simp
  have "unat (w - take_bit n w) = unat w - unat (take_bit n w)"
    using le by (rule unat_sub)
  then show ?thesis
    by (simp only: and_not_mask_eq_diff tb)
qed

lemma sint_eq_uint_small:
  assumes "uint (w :: 64 word) < 2 ^ 63"
  shows "sint w = uint w"
proof -
  have "uint w div 2 ^ 63 = 0"
    using assms by (simp add: div_pos_pos_trivial)
  then have nb: "\<not> bit (uint w) 63"
    by (simp add: bit_iff_odd)
  have "sint w = signed_take_bit 63 (uint w)"
    by (simp add: sint_uint)
  also have "\<dots> = take_bit 63 (uint w)"
    using nb by (rule signed_take_bit_eq_if_positive)
  also have "\<dots> = uint w"
    using assms by (simp add: take_bit_int_eq_self)
  finally show ?thesis .
qed

lemma round_up_alt: "round_up a x = (x + a - 1) - (x + a - 1) mod a"
  unfolding round_up_def by (rule minus_mod_eq_div_mult [symmetric])

lemma round_up_dvd: "a dvd round_up a x"
  unfolding round_up_def by (rule dvd_triv_right)

lemma round_up_ge:
  assumes "0 < a"
  shows "x \<le> round_up a x"
proof -
  have "(x + a - 1) mod a < a"
    using assms by (rule mod_less_divisor)
  then have "(x + a - 1) mod a \<le> a - 1"
    by linarith
  then have "x + a - 1 - (a - 1) \<le> x + a - 1 - (x + a - 1) mod a"
    by (rule diff_le_mono2)
  moreover have "x + a - 1 - (a - 1) = x"
    using assms by linarith
  ultimately show ?thesis
    unfolding round_up_alt by linarith
qed

lemma round_up_le:
  assumes "0 < a"
  shows "round_up a x \<le> x + a - 1"
  unfolding round_up_alt by (rule diff_le_self)

lemma round_up_least:
  assumes "0 < a" and "a dvd m" and "x \<le> m"
  shows "round_up a x \<le> m"
proof -
  from \<open>a dvd m\<close> obtain q where m: "m = q * a"
    by (auto simp: dvd_def mult.commute)
  from \<open>x \<le> m\<close> assms(1) have "x + a - 1 < Suc q * a"
    unfolding m by simp
  then have "(x + a - 1) div a < Suc q"
    by (rule less_mult_imp_div_less)
  then have "(x + a - 1) div a \<le> q"
    by linarith
  then have "(x + a - 1) div a * a \<le> q * a"
    by (rule mult_le_mono1)
  then show ?thesis
    unfolding round_up_def m .
qed

lemma round_up_aligned: "0 < a \<Longrightarrow> a dvd x \<Longrightarrow> round_up a x = x"
  by (meson dual_order.refl le_antisym round_up_ge round_up_least)

lemma ggla_align:
  assumes "x + 31 < 2 ^ 63"
  shows "sint ((word_of_nat x + 31 :: 64 word) AND - 32) = int (round_up 32 x)"
proof -
  let ?w = "word_of_nat x + 31 :: 64 word"
  have w: "unat ?w = x + 31"
  proof -
    have "?w = word_of_nat (x + 31)" by simp
    moreover have "x + 31 < 2 ^ 64" using assms by simp
    ultimately show ?thesis
      by (simp only: unat_of_nat) (simp add: take_bit_nat_eq_self)
  qed
  have m: "(- 32 :: 64 word) = NOT (mask 5)"
    using minus_exp_eq_not_mask [of 5, where ?'a = "64 word"] by simp
  have u: "unat (?w AND - 32) = round_up 32 x"
    unfolding m unat_and_not_mask w by (simp add: round_up_alt add.commute)
  have "round_up 32 x \<le> x + 31"
    using round_up_le [of 32 x] by simp
  with assms have "round_up 32 x < 2 ^ 63"
    by simp
  then have "int (round_up 32 x) < 2 ^ 63"
    by (simp only: of_nat_less_numeral_power_cancel_iff)
  moreover have ui: "uint (?w AND - 32) = int (round_up 32 x)"
    by (simp only: uint_nat u)
  ultimately have "uint (?w AND - 32) < 2 ^ 63"
    by (simp only:)
  then have "sint (?w AND - 32) = uint (?w AND - 32)"
    by (rule sint_eq_uint_small)
  then show ?thesis
    by (simp only: ui)
qed


lemma ucast_pow2:
  assumes "k < 32"
  shows "(ucast (2 ^ k :: 32 word) :: 64 word) = 2 ^ k"
  using assms by (intro bit_word_eqI) (auto simp: bit_simps)

lemma padded_pow2:
  assumes k: "k < 32" and fit: "unat sz + 2 ^ k \<le> 2 ^ 63"
  shows "padded sz (2 ^ k) = int (round_up (2 ^ k) (unat sz))"
proof -
  let ?a = "2 ^ k :: 64 word"
  let ?w = "sz + ?a - 1"
  have m: "?a - 1 = mask k"
    by (simp add: mask_eq_decr_exp)
  have "(1::nat) \<le> 2 ^ k"
    by simp
  then have "(word_of_nat (2 ^ k - 1) :: 64 word) = word_of_nat (2 ^ k) - word_of_nat 1"
    by (rule of_nat_diff)
  then have "(word_of_nat (2 ^ k - 1) :: 64 word) = ?a - 1"
    by simp
  moreover have "(word_of_nat (unat sz + (2 ^ k - 1)) :: 64 word) =
      word_of_nat (unat sz) + word_of_nat (2 ^ k - 1)"
    by (rule of_nat_add)
  ultimately have "?w = word_of_nat (unat sz + (2 ^ k - 1))"
    by simp
  then have "unat ?w = (unat sz + (2 ^ k - 1)) mod 2 ^ 64"
    by (simp only: unat_of_nat) simp
  moreover have "unat sz + (2 ^ k - 1) < 2 ^ 64"
    using fit by simp
  ultimately have w: "unat ?w = unat sz + 2 ^ k - 1"
    by simp
  have u: "unat (?w AND NOT (?a - 1)) = round_up (2 ^ k) (unat sz)"
    unfolding m unat_and_not_mask w round_up_alt ..
  have "round_up (2 ^ k) (unat sz) \<le> unat sz + 2 ^ k - 1"
    by (rule round_up_le) simp
  with fit have "round_up (2 ^ k) (unat sz) < 2 ^ 63"
    by simp
  then have "int (round_up (2 ^ k) (unat sz)) < 2 ^ 63"
    by (simp only: of_nat_less_numeral_power_cancel_iff)
  moreover have ui: "uint (?w AND NOT (?a - 1)) = int (round_up (2 ^ k) (unat sz))"
    by (simp only: uint_nat u)
  ultimately have "uint (?w AND NOT (?a - 1)) < 2 ^ 63"
    by (simp only:)
  then have "sint (?w AND NOT (?a - 1)) = uint (?w AND NOT (?a - 1))"
    by (rule sint_eq_uint_small)
  then show ?thesis
    unfolding padded_def ucast_pow2 [OF k] by (simp only: ui)
qed

section \<open>Format B: the version check\<close>

text \<open>
  Claim C8. \<^verbatim>\<open>containerGGLA.Decode\<close> reads a four-byte little-endian version tag and
  accepts only the value 1: on a stream whose tag is any other value it returns no model
  and the invalid-version error, and the stream stands right after the four bytes of the
  tag.
\<close>

theorem ggla_Decode_rejects_version:
  assumes "4 \<le> length (remaining rso)"
      and "le_uint (take 4 (remaining rso)) \<noteq> (1::u32)"
  shows "ggla_Decode tsize c rso =
           Some (None, Some ErrInvalidVersion, rso\<lparr>offset := offset rso + 4\<rparr>)"
  using assms by (simp add: ggla_Decode_def read_u32le_avail)

theorem ggla_Decode_rejects_version_witness:
  "ggla_Decode f32_size \<lparr>version = 0\<rparr> ggla_v2 =
     Some (None, Some ErrInvalidVersion, ggla_v2\<lparr>offset := 4\<rparr>)"
  using ggla_Decode_rejects_version [of ggla_v2 f32_size "\<lparr>version = 0\<rparr>"]
  by (simp add: ggla_v2_def remaining_def)

section \<open>Format A: strings\<close>

text \<open>
  Claim C10. In \<^verbatim>\<open>readStringV1\<close> a 32-bit length of 0 (read from the stream, or left
  at zero by a failed read) makes \<^verbatim>\<open>b.Truncate(b.Len() - 1)\<close> truncate an empty buffer
  to length -1, which panics; so every string the function returns had a length of at
  least 1 on the wire.
\<close>

theorem readStringV1_zero_length_panics:
  "(fst (readU32 llm r) = 0 \<longrightarrow> readStringV1 llm r = Panic TruncationOutOfRange) \<and>
   (\<forall>s r'. readStringV1 llm r = Ok s r' \<longrightarrow> 1 \<le> unat (fst (readU32 llm r)))"
proof (intro conjI allI impI)
  assume "fst (readU32 llm r) = 0"
  then show "readStringV1 llm r = Panic TruncationOutOfRange"
    by (cases "readU32 llm r") (simp add: readStringV1_def io_CopyN_zero)
next
  fix s r'
  assume ok: "readStringV1 llm r = Ok s r'"
  obtain n r1 where rd: "readU32 llm r = (n, r1)"
    by (cases "readU32 llm r")
  from ok rd obtain b r2 where cp: "io_CopyN r1 (uint n) = (Inr b, r2)" and ne: "b \<noteq> []"
    by (auto simp: readStringV1_def split: prod.splits sum.splits if_splits)
  from io_CopyN_length [OF cp] ne have "0 < unat n"
    by (cases b) simp_all
  with rd show "1 \<le> unat (fst (readU32 llm r))"
    by simp
qed

theorem readStringV1_zero_length_panics_witness:
  "fst (readU32 llm_v1 str_v1_empty) = 0 \<and>
   readStringV1 llm_v1 str_v1_empty = Panic TruncationOutOfRange \<and>
   readStringV1 llm_v1 str_v1_ab = Ok ''ab'' (str_v1_ab\<lparr>offset := 7\<rparr>) \<and>
   1 \<le> unat (fst (readU32 llm_v1 str_v1_ab))"
proof -
  have z: "fst (readU32 llm_v1 str_v1_empty) = 0"
    by (simp add: readU32_def read_uint_def binary_Read_def remaining_def uint_of_def
        llm_v1_def newModelGGUF_def gguf_le_def str_v1_empty_def)
  have ok: "readStringV1 llm_v1 str_v1_ab = Ok ''ab'' (str_v1_ab\<lparr>offset := 7\<rparr>)"
    by (simp add: readStringV1_def readU32_def read_uint_def binary_Read_def remaining_def
        uint_of_def io_CopyN_def llm_v1_def newModelGGUF_def gguf_le_def str_v1_ab_def)
  from readStringV1_zero_length_panics [of llm_v1 str_v1_empty] z
  have "readStringV1 llm_v1 str_v1_empty = Panic TruncationOutOfRange"
    by blast
  moreover from readStringV1_zero_length_panics [of llm_v1 str_v1_ab] ok
  have "1 \<le> unat (fst (readU32 llm_v1 str_v1_ab))"
    by blast
  ultimately show ?thesis using z ok by simp
qed

text \<open>
  Claim C5. \<^verbatim>\<open>readString\<close> depends on the container version. With version 1 the
  length is the 32-bit value \<^verbatim>\<open>readU32\<close> gives, and the string is the copied bytes
  without their last byte, so its length is the prefix minus one. With any other version
  the length is the 64-bit value \<^verbatim>\<open>readU64\<close> gives, cast to \<^verbatim>\<open>int64\<close>, and the
  string is exactly the copied bytes.
\<close>

theorem readString_by_version:
  assumes "readString llm r = Ok s r'"
  shows "(Version (container llm) = 1 \<longrightarrow>
            (let (n, r1) = readU32 llm r
             in s = butlast (take (unat n) (remaining r1)) \<and> length s = unat n - 1)) \<and>
         (Version (container llm) \<noteq> 1 \<longrightarrow>
            (let (n, r1) = readU64 llm r
             in s = take (nat (sint n)) (remaining r1) \<and> length s = nat (sint n)))"
proof (intro conjI impI)
  assume v1: "Version (container llm) = 1"
  obtain n r1 where rd: "readU32 llm r = (n, r1)"
    by (cases "readU32 llm r")
  from assms v1 rd obtain b r2 where cp: "io_CopyN r1 (uint n) = (Inr b, r2)"
    and s: "s = take (length b - 1) b"
    by (auto simp: readString_def readStringV1_def split: prod.splits sum.splits if_splits)
  from io_CopyN_bytes [OF cp] io_CopyN_length [OF cp] s
  have "s = butlast (take (unat n) (remaining r1))" "length s = unat n - 1"
    by (simp_all add: butlast_conv_take)
  with rd show "let (n, r1) = readU32 llm r
     in s = butlast (take (unat n) (remaining r1)) \<and> length s = unat n - 1"
    by simp
next
  assume v: "Version (container llm) \<noteq> 1"
  obtain n r1 where rd: "readU64 llm r = (n, r1)"
    by (cases "readU64 llm r")
  from assms v rd have cp: "io_CopyN r1 (sint n) = (Inr s, r')"
    by (auto simp: readString_def split: prod.splits sum.splits if_splits)
  from io_CopyN_bytes [OF cp] io_CopyN_length [OF cp] rd
  show "let (n, r1) = readU64 llm r
     in s = take (nat (sint n)) (remaining r1) \<and> length s = nat (sint n)"
    by simp
qed

theorem readString_by_version_witness:
  "readString llm_v1 str_v1_ab = Ok ''ab'' (str_v1_ab\<lparr>offset := 7\<rparr>) \<and>
   (let (n, r1) = readU32 llm_v1 str_v1_ab
    in ''ab'' = butlast (take (unat n) (remaining r1)) \<and> length ''ab'' = unat n - 1) \<and>
   readString llm_v3 str_v3_ab = Ok ''ab'' (str_v3_ab\<lparr>offset := 10\<rparr>) \<and>
   (let (n, r1) = readU64 llm_v3 str_v3_ab
    in ''ab'' = take (nat (sint n)) (remaining r1) \<and> length ''ab'' = nat (sint n))"
proof -
  have v1: "Version (container llm_v1) = 1" and v3: "Version (container llm_v3) \<noteq> 1"
    by (simp_all add: llm_v1_def llm_v3_def newModelGGUF_def gguf_le_def)
  have s1: "readString llm_v1 str_v1_ab = Ok ''ab'' (str_v1_ab\<lparr>offset := 7\<rparr>)"
    by code_simp
  have s3: "readString llm_v3 str_v3_ab = Ok ''ab'' (str_v3_ab\<lparr>offset := 10\<rparr>)"
    by code_simp
  from readString_by_version [OF s1] readString_by_version [OF s3] v1 v3 s1 s3
  show ?thesis
    by blast
qed

section \<open>Format B: tensor shapes\<close>

lemma remaining_advance:
  "remaining (rso\<lparr>offset := offset rso + n\<rparr>) = drop n (remaining rso)"
  by (simp add: remaining_def add.commute)

lemma read_u32le_cases:
  "read_u32le rso = (Inr v, rso') \<Longrightarrow>
     v = wire_u32 (remaining rso) 0 \<and> rso' = rso\<lparr>offset := offset rso + 4\<rparr>"
  by (auto simp: read_u32le_def binary_Read_def wire_u32_def Let_def split: if_splits)

lemma wire_u32_drop: "wire_u32 (drop (4 * k) bs) i = wire_u32 bs (k + i)"
  by (simp add: wire_u32_def algebra_simps)

lemma read_shape32_wire:
  "read_shape32 n shape rso = (Inr shape', rso') \<Longrightarrow>
     shape' = shape @ map (\<lambda>i. ucast (wire_u32 (remaining rso) i)) [0..<n] \<and>
     rso' = rso\<lparr>offset := offset rso + 4 * n\<rparr>"
proof (induction n arbitrary: shape rso)
  case 0
  then show ?case by simp
next
  case (Suc n)
  from Suc.prems obtain v r1 where rd: "read_u32le rso = (Inr v, r1)"
    and rest: "read_shape32 n (shape @ [ucast v]) r1 = (Inr shape', rso')"
    by (auto split: prod.splits sum.splits)
  from read_u32le_cases [OF rd]
  have v: "v = wire_u32 (remaining rso) 0" and r1: "r1 = rso\<lparr>offset := offset rso + 4\<rparr>"
    by simp_all
  have rem: "remaining r1 = drop (4 * 1) (remaining rso)"
    by (simp add: r1 remaining_advance)
  from Suc.IH [OF rest]
  have "shape' = (shape @ [ucast v]) @ map (\<lambda>i. ucast (wire_u32 (remaining r1) i)) [0..<n]"
    and "rso' = r1\<lparr>offset := offset r1 + 4 * n\<rparr>"
    by simp_all
  then show ?case
    unfolding rem wire_u32_drop
    by (simp add: v r1 upt_conv_Cons map_Suc_upt [symmetric] del: upt_Suc)
qed



section \<open>Format A: evaluating the decoder\<close>

lemmas decode_defs =
  gguf_Decode_def read_header_def gguf_decode_def decode_entries_def decode_finish_def
  newModelGGUF_def NumKV_def NumTensor_def read_kv_def read_tensor_info_def read_value_def
  readString_def readStringV1_def readArray_def readArrayV1_def
  readU8_def readI8_def readU16_def readI16_def readU32_def readI32_def readU64_def
  readI64_def readF32_def readF64_def readBool_def read_uint_def
  binary_Read_def io_CopyN_def remaining_def uint_of_def alignment_of_def padded_def Seek_def

lemma loops_at_numerals:
  "decode_kvs (numeral k) = decode_kvs (Suc (pred_numeral k))"
  "decode_kvs 1 = decode_kvs (Suc 0)"
  "decode_tensors tp (numeral k) = decode_tensors tp (Suc (pred_numeral k))"
  "decode_tensors tp 1 = decode_tensors tp (Suc 0)"
  "read_shape64 llm (numeral k) = read_shape64 llm (Suc (pred_numeral k))"
  "read_shape64 llm 1 = read_shape64 llm (Suc 0)"
  "readArray_loop llm a (numeral k) = readArray_loop llm a (Suc (pred_numeral k))"
  "readArray_loop llm a 1 = readArray_loop llm a (Suc 0)"
  "readArrayV1_loop llm a (numeral k) = readArrayV1_loop llm a (Suc (pred_numeral k))"
  "readArrayV1_loop llm a 1 = readArrayV1_loop llm a (Suc 0)"
  "read_shape32 (numeral k) = read_shape32 (Suc (pred_numeral k))"
  "read_shape32 1 = read_shape32 (Suc 0)"
  by (simp_all only: numeral_eq_Suc One_nat_def)

section \<open>Format A: read failures\<close>

text \<open>
  Claim C6 says that every read failure during a GGUF decode is returned to the caller.
  The fixed-width readers drop the error of \<^verbatim>\<open>binary.Read\<close>, so it is not: on the
  stream \<open>gguf_truncated\<close>, which ends after the first key, the missing type tag reads
  as 0, the missing value as the byte 0, and \<^verbatim>\<open>Decode\<close> returns a model that holds the
  entry \<open>a = uint8 0\<close> and no error.
\<close>

theorem gguf_truncated_returns_no_error:
  "gguf_Decode f32_size f32_parameters gguf_le gguf_truncated =
     Returned
       \<lparr>container = gguf_le\<lparr>Version := 3, V2_NumKV := 1\<rparr>,
        kv = [''a'' \<mapsto> U8 0, ''general.parameter_count'' \<mapsto> U64 0],
        tensors = [], parameters = 0\<rparr>
       None
       (gguf_truncated\<lparr>offset := 32\<rparr>)"
  by (simp add: decode_defs gguf_le_def gguf_truncated_def loops_at_numerals)

section \<open>Format A: the parameter count\<close>

lemma decode_kvs_keeps:
  "decode_kvs n llm rso = Returned llm' e r \<Longrightarrow>
     tensors llm' = tensors llm \<and> parameters llm' = parameters llm \<and>
     container llm' = container llm"
proof (induction n arbitrary: llm rso)
  case 0
  then show ?case by simp
next
  case (Suc n)
  show ?case
  proof (cases "read_kv llm rso")
    case (Panic p)
    with Suc.prems show ?thesis by simp
  next
    case (Err e' r')
    with Suc.prems show ?thesis by simp
  next
    case (Ok entry r1)
    obtain k vtype v where entry: "entry = (k, vtype, v)"
      by (cases entry)
    from Suc.prems Ok entry Suc.IH show ?thesis
      by (fastforce split: if_splits)
  qed
qed

lemma decode_tensors_sum:
  "decode_tensors tp n llm rso = Returned llm' e r \<Longrightarrow>
   parameters llm = sum_list (map tp (tensors llm)) \<Longrightarrow>
     parameters llm' = sum_list (map tp (tensors llm')) \<and> kv llm' = kv llm \<and>
     container llm' = container llm"
proof (induction n arbitrary: llm rso)
  case 0
  then show ?case by simp
next
  case (Suc n)
  show ?case
  proof (cases "read_tensor_info llm rso")
    case (Panic p)
    with Suc.prems show ?thesis by simp
  next
    case (Err e' r')
    with Suc.prems show ?thesis by simp
  next
    case (Ok t r1)
    let ?llm1 = "llm\<lparr>tensors := tensors llm @ [t], parameters := parameters llm + tp t\<rparr>"
    from Suc.prems(1) Ok have run: "decode_tensors tp n ?llm1 r1 = Returned llm' e r"
      by simp
    have "parameters ?llm1 = sum_list (map tp (tensors ?llm1))"
      using Suc.prems(2) by simp
    from Suc.IH [OF run this] show ?thesis
      by simp
  qed
qed

lemma decode_entries_sum:
  assumes "decode_entries tp llm rso = Returned llm' e r"
      and "parameters llm = sum_list (map tp (tensors llm))"
  shows "parameters llm' = sum_list (map tp (tensors llm'))"
proof (cases "decode_kvs (unat (NumKV llm)) llm rso")
  case (Panicked p)
  with assms(1) show ?thesis by (simp add: decode_entries_def)
next
  case (Returned llm1 e1 r1)
  note kvs = decode_kvs_keeps [OF Returned]
  show ?thesis
  proof (cases e1)
    case (Some err)
    with assms Returned kvs show ?thesis
      by (auto simp: decode_entries_def)
  next
    case None
    with assms(1) Returned
    have "decode_tensors tp (unat (NumTensor llm1)) llm1 r1 = Returned llm' e r"
      by (simp add: decode_entries_def)
    from decode_tensors_sum [OF this] kvs assms(2) show ?thesis
      by simp
  qed
qed

lemma decode_finish_cases:
  assumes "decode_finish tsize llm rso = Returned llm' e r"
  shows "llm' = llm\<lparr>kv := (kv llm)(''general.parameter_count'' \<mapsto> U64 (parameters llm))\<rparr>"
    and "e = None"
  using assms by (auto simp: decode_finish_def Let_def split: if_splits)

text \<open>
  Claim C7. After a decode that returns no error the store holds
  \<open>general.parameter_count\<close>, an unsigned 64-bit value: the sum (on 64 bits) of
  \<^verbatim>\<open>tensor.parameters()\<close> over the decoded tensors in their order. The insertion does
  not look at the store, so a value the stream gave under that key is overwritten.
\<close>

theorem parameter_count_is_sum:
  assumes "gguf_Decode tsize tparameters c rso = Returned m None rso'"
  shows "kv m ''general.parameter_count'' = Some (U64 (sum_list (map tparameters (tensors m))))"
proof -
  obtain c' r0 where hd: "read_header c rso = (c', r0)"
    by (cases "read_header c rso")
  let ?llm = "newModelGGUF c'"
  from assms hd have dec: "gguf_decode tsize tparameters ?llm r0 = Returned m None rso'"
    by (simp add: gguf_Decode_def)
  then obtain llm2 r2 where ent: "decode_entries tparameters ?llm r0 = Returned llm2 None r2"
    and fin: "decode_finish tsize llm2 r2 = Returned m None rso'"
    by (auto simp: gguf_decode_def split: outcome.splits option.splits)
  have "parameters ?llm = sum_list (map tparameters (tensors ?llm))"
    by (simp add: newModelGGUF_def)
  from decode_entries_sum [OF ent this]
  have "parameters llm2 = sum_list (map tparameters (tensors llm2))" .
  with decode_finish_cases(1) [OF fin] show ?thesis
    by simp
qed

theorem parameter_count_is_sum_witness:
  "gguf_Decode f32_size f32_parameters gguf_le gguf_count_clash =
     Returned
       \<lparr>container = gguf_le\<lparr>Version := 3, V2_NumTensor := 2, V2_NumKV := 1\<rparr>,
        kv = [''general.parameter_count'' \<mapsto> U64 11],
        tensors = [\<lparr>Name = ''a'', Kind = 0, toffset = 0, Shape = [5]\<rparr>,
                   \<lparr>Name = ''b'', Kind = 0, toffset = 32, Shape = [2, 3]\<rparr>],
        parameters = 11\<rparr>
       None
       (gguf_count_clash\<lparr>offset := 224\<rparr>) \<and>
   [''general.parameter_count'' \<mapsto> U64 11] ''general.parameter_count'' =
     Some (U64 (sum_list (map f32_parameters
       [\<lparr>Name = ''a'', Kind = 0, toffset = 0, Shape = [5]\<rparr>,
        \<lparr>Name = ''b'', Kind = 0, toffset = 32, Shape = [2, 3]\<rparr>])))"
proof -
  have run: "gguf_Decode f32_size f32_parameters gguf_le gguf_count_clash =
     Returned
       \<lparr>container = gguf_le\<lparr>Version := 3, V2_NumTensor := 2, V2_NumKV := 1\<rparr>,
        kv = [''general.parameter_count'' \<mapsto> U64 11],
        tensors = [\<lparr>Name = ''a'', Kind = 0, toffset = 0, Shape = [5]\<rparr>,
                   \<lparr>Name = ''b'', Kind = 0, toffset = 32, Shape = [2, 3]\<rparr>],
        parameters = 11\<rparr>
       None
       (gguf_count_clash\<lparr>offset := 224\<rparr>)"
    by (simp add: decode_defs gguf_le_def gguf_count_clash_def f32_size_def f32_parameters_def
        loops_at_numerals)
  from parameter_count_is_sum [OF run] run show ?thesis
    by simp
qed

section \<open>Format B: the tensor loop\<close>

lemma binary_Read_Inr:
  "binary_Read r n = (Inr bs, r') \<Longrightarrow>
     r' = r\<lparr>offset := offset r + n\<rparr> \<and> n \<le> length (remaining r)"
  by (auto simp: binary_Read_def Let_def split: if_splits)

lemma binary_Read_Inl:
  "binary_Read r n = (Inl e, r') \<Longrightarrow> read_error e \<and> data r' = data r"
  by (auto simp: binary_Read_def read_error_def Let_def split: if_splits)

lemma length_remaining: "length (remaining r) = length (data r) - offset r"
  by (simp add: remaining_def)

lemma binary_Read_Inr_bound:
  assumes "binary_Read r n = (Inr bs, r')" and "offset r \<le> length (data r)"
  shows "data r' = data r" and "offset r' = offset r + n" and "offset r' \<le> length (data r)"
  using binary_Read_Inr [OF assms(1)] assms(2) by (auto simp: length_remaining)

lemma read_u32le_Inl:
  "read_u32le r = (Inl e, r') \<Longrightarrow> read_error e \<and> data r' = data r"
  by (auto simp: read_u32le_def split: prod.splits sum.splits dest: binary_Read_Inl)

lemma read_u32le_Inr:
  assumes "read_u32le r = (Inr v, r')"
  shows "data r' = data r" and "offset r' = offset r + 4" and "offset r + 4 \<le> length (data r)"
proof -
  from assms obtain bs where rd: "binary_Read r 4 = (Inr bs, r')"
    by (auto simp: read_u32le_def split: prod.splits sum.splits)
  from binary_Read_Inr [OF rd]
  have r': "r' = r\<lparr>offset := offset r + 4\<rparr>" and av: "4 \<le> length (remaining r)"
    by simp_all
  show "data r' = data r" "offset r' = offset r + 4"
    by (simp_all add: r')
  from av show "offset r + 4 \<le> length (data r)"
    by (simp add: length_remaining)
qed

lemma read_shape32_Inl:
  "read_shape32 n shape r = (Inl e, r') \<Longrightarrow> read_error e \<and> data r' = data r"
proof (induction n arbitrary: shape r)
  case 0
  then show ?case by simp
next
  case (Suc n)
  show ?case
  proof (cases "read_u32le r")
    case (Pair res r1)
    show ?thesis
    proof (cases res)
      case (Inl e1)
      with Suc.prems Pair read_u32le_Inl [of r e1 r1] show ?thesis
        by simp
    next
      case (Inr v)
      with Suc.prems Pair
      have "read_shape32 n (shape @ [ucast v]) r1 = (Inl e, r')"
        by simp
      from Suc.IH [OF this] read_u32le_Inr(1) [of r v r1] Pair Inr show ?thesis
        by simp
    qed
  qed
qed

lemma read_shape32_Inr:
  "read_shape32 n shape r = (Inr shape', r') \<Longrightarrow> offset r \<le> length (data r) \<Longrightarrow>
     data r' = data r \<and> offset r \<le> offset r' \<and> offset r' \<le> length (data r)"
proof (induction n arbitrary: shape r)
  case 0
  then show ?case by simp
next
  case (Suc n)
  from Suc.prems(1) obtain v r1 where rd: "read_u32le r = (Inr v, r1)"
    and rest: "read_shape32 n (shape @ [ucast v]) r1 = (Inr shape', r')"
    by (auto split: prod.splits sum.splits)
  note u = read_u32le_Inr [OF rd]
  from u have "offset r1 \<le> length (data r1)"
    by simp
  from Suc.IH [OF rest this] u show ?case
    by simp
qed

lemma Seek_start_ok:
  "0 \<le> p \<Longrightarrow> p < 2 ^ 63 \<Longrightarrow> Seek r p SeekStart = (Inr p, r\<lparr>offset := nat p\<rparr>)"
  by (simp add: Seek_def)

lemma Seek_start_nat:
  assumes "n < 2 ^ 63"
  shows "Seek r (int n) SeekStart = (Inr (int n), r\<lparr>offset := n\<rparr>)"
proof -
  from assms have "int n < 2 ^ 63"
    by (simp only: of_nat_less_numeral_power_cancel_iff)
  then show ?thesis
    by (simp add: Seek_start_ok)
qed

lemma Seek_cases:
  assumes "Seek r d w = (res, r')"
  shows "(res = Inl ErrSeek \<and> r' = r) \<or>
         (\<exists>p. res = Inr p \<and> 0 \<le> p \<and> r' = r\<lparr>offset := nat p\<rparr> \<and>
              p = (case w of SeekStart \<Rightarrow> d | SeekCurrent \<Rightarrow> int (offset r) + d))"
  using assms by (auto simp: Seek_def Let_def split: if_splits)

text \<open>One round of the loop on a stream whose positions fit in int64.\<close>

lemma read_tensor_round:
  assumes len: "length (data r) + 31 < 2 ^ 63"
  shows "(\<forall>e r'. read_tensor tsize r = (Inl e, r') \<longrightarrow> read_error e \<or> e = ErrSeek) \<and>
         (\<forall>t r'. read_tensor tsize r = (Inr t, r') \<longrightarrow>
            data r' = data r \<and> offset r + 12 \<le> length (data r) \<and>
            (0 \<le> sint (tsize t) \<longrightarrow> offset r + 12 \<le> offset r'))"
proof (cases "read_u32le r")
  case (Pair res1 r1)
  show ?thesis
  proof (cases res1)
    case (Inl e1)
    with Pair read_u32le_Inl [of r e1 r1] show ?thesis
      by (simp add: read_tensor_def)
  next
    case dims: (Inr dims)
    note u1 = read_u32le_Inr [OF Pair [unfolded dims]]
    show ?thesis
    proof (cases "read_u32le r1")
      case p2: (Pair res2 r2)
      show ?thesis
      proof (cases res2)
        case (Inl e2)
        with Pair dims p2 read_u32le_Inl [of r1 e2 r2] show ?thesis
          by (simp add: read_tensor_def)
      next
        case namesize: (Inr namesize)
        note u2 = read_u32le_Inr [OF p2 [unfolded namesize]]
        show ?thesis
        proof (cases "read_u32le r2")
          case p3: (Pair res3 r3)
          show ?thesis
          proof (cases res3)
            case (Inl e3)
            with Pair dims p2 namesize p3 read_u32le_Inl [of r2 e3 r3] show ?thesis
              by (simp add: read_tensor_def)
          next
            case kind: (Inr kind)
            note u3 = read_u32le_Inr [OF p3 [unfolded kind]]
            from u1 u2 u3 have d3: "data r3 = data r" and o3: "offset r3 = offset r + 12"
              and b3: "offset r3 \<le> length (data r3)"
              by simp_all
            show ?thesis
            proof (cases "read_shape32 (unat dims) [] r3")
              case p4: (Pair res4 r4)
              show ?thesis
              proof (cases res4)
                case (Inl e4)
                with Pair dims p2 namesize p3 kind p4
                  read_shape32_Inl [of "unat dims" "[]" r3 e4 r4] show ?thesis
                  by (simp add: read_tensor_def)
              next
                case shape: (Inr shape)
                from read_shape32_Inr [OF p4 [unfolded shape] b3] d3
                have d4: "data r4 = data r" and o4: "offset r3 \<le> offset r4"
                  and b4: "offset r4 \<le> length (data r4)"
                  by simp_all
                show ?thesis
                proof (cases "binary_Read r4 (unat namesize)")
                  case p5: (Pair res5 r5)
                  show ?thesis
                  proof (cases res5)
                    case (Inl e5)
                    with Pair dims p2 namesize p3 kind p4 shape p5
                      binary_Read_Inl [of r4 "unat namesize" e5 r5] show ?thesis
                      by (simp add: read_tensor_def)
                  next
                    case name: (Inr name)
                    from binary_Read_Inr_bound [OF p5 [unfolded name] b4] d4
                    have d5: "data r5 = data r" and o5: "offset r4 \<le> offset r5"
                      and b5: "offset r5 \<le> length (data r)"
                      by simp_all
                    let ?r6 = "r5\<lparr>offset := round_up 32 (offset r5)\<rparr>"
                    let ?t = "\<lparr>Name = name, Kind = kind, toffset = word_of_nat (offset ?r6),
                               Shape = rev shape\<rparr>"
                    from len b5 have f5: "offset r5 + 31 < 2 ^ 63"
                      by linarith
                    let ?p = "sint ((word_of_nat (offset r5) + 31 :: u64) AND - 32)"
                    have p: "?p = int (round_up 32 (offset r5))"
                      using f5 by (rule ggla_align)
                    have ge: "offset r5 \<le> round_up 32 (offset r5)"
                      by (rule round_up_ge) simp
                    have le: "round_up 32 (offset r5) \<le> offset r5 + 31"
                      using round_up_le [of 32 "offset r5"] by simp
                    from le f5 have "round_up 32 (offset r5) < 2 ^ 63"
                      by (rule le_less_trans)
                    then have s6: "Seek r5 ?p SeekStart =
                        (Inr ?p, r5\<lparr>offset := round_up 32 (offset r5)\<rparr>)"
                      unfolding p by (rule Seek_start_nat)
                    have o6: "offset ?r6 = round_up 32 (offset r5)" and d6: "data ?r6 = data r"
                      using d5 by simp_all
                    obtain res7 r7 where s7: "Seek ?r6 (sint (tsize ?t)) SeekCurrent = (res7, r7)"
                      by (cases "Seek ?r6 (sint (tsize ?t)) SeekCurrent")
                    have res: "read_tensor tsize r =
                        (case res7 of Inl e \<Rightarrow> (Inl e, r7) | Inr p \<Rightarrow> (Inr ?t, r7))"
                      using Pair dims p2 namesize p3 kind p4 shape p5 name s6 s7
                      by (simp add: read_tensor_def Let_def split: sum.splits)
                    from Seek_cases [OF s7] show ?thesis
                    proof
                      assume "res7 = Inl ErrSeek \<and> r7 = ?r6"
                      then show ?thesis
                        unfolding res by simp
                    next
                      assume "\<exists>p. res7 = Inr p \<and> 0 \<le> p \<and> r7 = ?r6\<lparr>offset := nat p\<rparr> \<and>
                        p = (case SeekCurrent of SeekStart \<Rightarrow> sint (tsize ?t)
                             | SeekCurrent \<Rightarrow> int (offset ?r6) + sint (tsize ?t))"
                      then obtain q where q: "res7 = Inr q" and r7: "r7 = ?r6\<lparr>offset := nat q\<rparr>"
                        and qv: "q = int (offset ?r6) + sint (tsize ?t)"
                        by auto
                      have fwd: "offset r + 12 \<le> offset r7" if "0 \<le> sint (tsize ?t)"
                      proof -
                        from that qv have "int (offset ?r6) \<le> q"
                          by simp
                        then have "offset ?r6 \<le> nat q"
                          by linarith
                        with o3 o4 o5 ge show ?thesis
                          unfolding r7 by simp
                      qed
                      from o3 b3 d3 have "offset r + 12 \<le> length (data r)"
                        by simp
                      with fwd d6 show ?thesis
                        unfolding res q r7 by simp
                    qed
                  qed
                qed
              qed
            qed
          qed
        qed
      qed
    qed
  qed
qed

lemma visits_data:
  assumes len: "length (data r0) + 31 < 2 ^ 63" and "visits tsize r0 r"
  shows "data r = data r0"
  using assms(2)
proof (induction rule: visits.induct)
  case entered
  show ?case by simp
next
  case (completed rso t rso')
  from len completed.IH have "length (data rso) + 31 < 2 ^ 63"
    by simp
  from read_tensor_round [OF this, of tsize] completed.hyps(2) completed.IH show ?case
    by simp
qed

lemma tensor_loop_accumulates:
  assumes len: "length (data r0) + 31 < 2 ^ 63"
      and fwd: "\<forall>r t r'. visits tsize r0 r \<longrightarrow> read_tensor tsize r = (Inr t, r') \<longrightarrow>
                  0 \<le> sint (tsize t)"
      and "visits tsize r0 r"
      and "data r0 = d"
  shows "\<exists>ts e r'. accumulates tsize r ts e r' \<and> (read_error e \<or> e = ErrSeek) \<and>
           tensor_loop tsize m r = Some (m\<lparr>la_tensors := la_tensors m @ ts\<rparr>, e, r')"
  using assms(3)
proof (induction "length d - offset r" arbitrary: r m rule: less_induct)
  case less
  from visits_data [OF len less.prems] have dr: "data r = data r0" .
  with len have len': "length (data r) + 31 < 2 ^ 63"
    by simp
  note round = read_tensor_round [OF len', of tsize]
  show ?case
  proof (cases "read_tensor tsize r")
    case (Pair res r1)
    show ?thesis
    proof (cases res)
      case (Inl e)
      with Pair round have "read_error e \<or> e = ErrSeek"
        by blast
      moreover from Pair Inl have "accumulates tsize r [] e r1"
        by (simp add: accumulates.stop)
      moreover from Pair Inl have "tensor_loop tsize m r = Some (m, e, r1)"
        by (subst tensor_loop.simps) simp
      ultimately show ?thesis
        by (intro exI [of _ "[]"] exI [of _ e] exI [of _ r1]) simp
    next
      case (Inr t)
      from fwd less.prems Pair Inr have "0 \<le> sint (tsize t)"
        by blast
      with Pair Inr round have av: "offset r + 12 \<le> length (data r)"
        and adv: "offset r + 12 \<le> offset r1"
        by blast+
      from av adv have "length (data r) - offset r1 < length (data r) - offset r"
        by linarith
      then have "length d - offset r1 < length d - offset r"
        unfolding dr assms(4) .
      moreover from less.prems Pair Inr have "visits tsize r0 r1"
        by (auto intro: visits.completed)
      ultimately obtain ts e r' where acc: "accumulates tsize r1 ts e r'"
        and err: "read_error e \<or> e = ErrSeek"
        and loop: "tensor_loop tsize (m\<lparr>la_tensors := la_tensors m @ [t]\<rparr>) r1 =
                     Some (m\<lparr>la_tensors := la_tensors m @ [t]\<rparr>
                             \<lparr>la_tensors := la_tensors (m\<lparr>la_tensors := la_tensors m @ [t]\<rparr>) @ ts\<rparr>, e, r')"
        using less.hyps [of r1 "m\<lparr>la_tensors := la_tensors m @ [t]\<rparr>"] by blast
      from Pair Inr acc have "accumulates tsize r (t # ts) e r'"
        by (simp add: accumulates.step)
      moreover from Pair Inr loop
      have "tensor_loop tsize m r = Some (m\<lparr>la_tensors := la_tensors m @ t # ts\<rparr>, e, r')"
        by (subst tensor_loop.simps) simp
      ultimately show ?thesis
        using err by blast
    qed
  qed
qed

lemmas ggla_defs =
  ggla_Decode_def ggla_decode_def read_tensor_def read_u32le_def binary_Read_def remaining_def
  newModelGGLA_def Seek_def f32_size_def


lemma ggla_one_eval:
  "ggla_Decode f32_size \<lparr>version = 0\<rparr> ggla_one =
     Some (Some \<lparr>la_container = \<lparr>version = 1\<rparr>,
                  la_kv = [''r'' \<mapsto> U32 8, ''alpha'' \<mapsto> U32 16],
                  la_tensors = [\<lparr>Name = ''w'', Kind = 0, toffset = 64, Shape = [3, 2]\<rparr>]\<rparr>,
           Some EOF, ggla_one\<lparr>offset := 88\<rparr>)"
  by (simp add: ggla_defs tensor_loop.simps ggla_one_def loops_at_numerals)

lemma ggla_cut_eval:
  "ggla_Decode f32_size \<lparr>version = 0\<rparr> ggla_cut =
     Some (Some \<lparr>la_container = \<lparr>version = 1\<rparr>,
                  la_kv = [''r'' \<mapsto> U32 8, ''alpha'' \<mapsto> U32 16],
                  la_tensors = [\<lparr>Name = ''w'', Kind = 0, toffset = 64, Shape = [3, 2]\<rparr>]\<rparr>,
           Some ErrUnexpectedEOF, ggla_cut\<lparr>offset := 94\<rparr>)"
  by (simp add: ggla_defs tensor_loop.simps ggla_one_def ggla_cut_def loops_at_numerals)

lemma ggla_one_rounds:
  "read_tensor f32_size (ggla_one\<lparr>offset := 12\<rparr>) =
     (Inr \<lparr>Name = ''w'', Kind = 0, toffset = 64, Shape = [3, 2]\<rparr>, ggla_one\<lparr>offset := 88\<rparr>)"
  "read_tensor f32_size (ggla_one\<lparr>offset := 88\<rparr>) = (Inl EOF, ggla_one\<lparr>offset := 88\<rparr>)"
  by (simp_all add: ggla_defs ggla_one_def loops_at_numerals)

lemma ggla_cut_rounds:
  "read_tensor f32_size (ggla_cut\<lparr>offset := 12\<rparr>) =
     (Inr \<lparr>Name = ''w'', Kind = 0, toffset = 64, Shape = [3, 2]\<rparr>, ggla_cut\<lparr>offset := 88\<rparr>)"
  "read_tensor f32_size (ggla_cut\<lparr>offset := 88\<rparr>) =
     (Inl ErrUnexpectedEOF, ggla_cut\<lparr>offset := 94\<rparr>)"
  by (simp_all add: ggla_defs ggla_one_def ggla_cut_def loops_at_numerals)

lemma ggla_one_visits:
  assumes "visits f32_size (ggla_one\<lparr>offset := 12\<rparr>) r"
  shows "r = ggla_one\<lparr>offset := 12\<rparr> \<or> r = ggla_one\<lparr>offset := 88\<rparr>"
  using assms
proof (induction rule: visits.induct)
  case entered
  show ?case by simp
next
  case (completed rso t rso')
  then show ?case
    using ggla_one_rounds by auto
qed

lemma ggla_cut_visits:
  assumes "visits f32_size (ggla_cut\<lparr>offset := 12\<rparr>) r"
  shows "r = ggla_cut\<lparr>offset := 12\<rparr> \<or> r = ggla_cut\<lparr>offset := 88\<rparr>"
  using assms
proof (induction rule: visits.induct)
  case entered
  show ?case by simp
next
  case (completed rso t rso')
  then show ?case
    using ggla_cut_rounds by auto
qed

lemma ggla_one_forward:
  "\<forall>r t r'. visits f32_size (ggla_one\<lparr>offset := offset ggla_one + 12\<rparr>) r \<longrightarrow>
     read_tensor f32_size r = (Inr t, r') \<longrightarrow> 0 \<le> sint (f32_size t)"
proof (intro allI impI)
  fix r t r'
  assume "visits f32_size (ggla_one\<lparr>offset := offset ggla_one + 12\<rparr>) r"
  moreover have "offset ggla_one = 0"
    by (simp add: ggla_one_def)
  ultimately have "visits f32_size (ggla_one\<lparr>offset := 12\<rparr>) r"
    by simp
  from ggla_one_visits [OF this]
  have "r = ggla_one\<lparr>offset := 12\<rparr> \<or> r = ggla_one\<lparr>offset := 88\<rparr>" .
  moreover assume "read_tensor f32_size r = (Inr t, r')"
  ultimately have "t = \<lparr>Name = ''w'', Kind = 0, toffset = 64, Shape = [3, 2]\<rparr>"
    using ggla_one_rounds by auto
  then show "0 \<le> sint (f32_size t)"
    by (simp add: f32_size_def)
qed

lemma ggla_cut_forward:
  "\<forall>r t r'. visits f32_size (ggla_cut\<lparr>offset := offset ggla_cut + 12\<rparr>) r \<longrightarrow>
     read_tensor f32_size r = (Inr t, r') \<longrightarrow> 0 \<le> sint (f32_size t)"
proof (intro allI impI)
  fix r t r'
  assume "visits f32_size (ggla_cut\<lparr>offset := offset ggla_cut + 12\<rparr>) r"
  moreover have "offset ggla_cut = 0"
    by (simp add: ggla_cut_def)
  ultimately have "visits f32_size (ggla_cut\<lparr>offset := 12\<rparr>) r"
    by simp
  from ggla_cut_visits [OF this]
  have "r = ggla_cut\<lparr>offset := 12\<rparr> \<or> r = ggla_cut\<lparr>offset := 88\<rparr>" .
  moreover assume "read_tensor f32_size r = (Inr t, r')"
  ultimately have "t = \<lparr>Name = ''w'', Kind = 0, toffset = 64, Shape = [3, 2]\<rparr>"
    using ggla_cut_rounds by auto
  then show "0 \<le> sint (f32_size t)"
    by (simp add: f32_size_def)
qed



end
